theory Spec2Isabelle
  imports Complex_Main
begin

section \<open>Tsunami Sentinel: feed normalisation and alert generation\<close>

text \<open>
  The development embeds the two pieces of logic of the dashboard:
  \<^item> \<open>services/tsunamiService.ts\<close>: \<open>mapUsgsFeatureToEarthquakeEvent\<close> and
    \<open>fetchTsunamiData\<close> (map, drop the null results, sort by \<open>updated\<close>);
  \<^item> \<open>App.tsx\<close>: the alert-generating effect of \<open>TsunamiDashboard\<close>, together with the
    built-in string operations it relies on.

  Conventions. A JavaScript number that is finite is represented by its exact real value
  (the thresholds 6.5 and 7.5 of the source are binary fractions, so the comparisons of the
  source and of the model agree on every finite double). A \<open>Date\<close> is represented by its
  time value, an integer number of milliseconds within the range of \<open>Date\<close>, as the time
  stamps of the feed are. A string is a list of characters. The operations of the
  JavaScript host that depend on the locale, the time zone or the wall clock are parameters
  of the model.
\<close>

subsection \<open>Data model (\<open>types.ts\<close> and the feed's feature type)\<close>

datatype alert_level = NoneLevel | Info | Advisory | Watch | Warning

record EarthquakeEvent =
  id_ev :: string
  title :: string
  updated :: int
  link :: string
  location :: string
  magnitude :: real
  depth :: real
  lat :: real
  lon :: real
  isTsunamiWarning :: bool
  rawSummary :: string
  alertLevel :: alert_level

record AlertSettings =
  minMagnitude :: real
  notificationsEnabled :: bool
  recipients :: "string list"
  emailTemplate :: string

record GeneratedAlert =
  id_al :: string
  timestamp :: string
  event :: EarthquakeEvent
  body :: string

text \<open>\<open>mag: number | null\<close> (or absent) is an option; \<open>tsunami: 0 | 1\<close> is a natural number;
  \<open>coordinates\<close> is the triple [longitude, latitude, depth].\<close>

record UsgsProperties =
  mag :: "real option"
  place :: string
  time_p :: int
  updated_p :: int
  url :: string
  title_p :: string
  tsunami :: nat

record UsgsGeometry =
  coordinates :: "real \<times> real \<times> real"

record UsgsFeature =
  id_f :: string
  properties :: UsgsProperties
  geometry :: UsgsGeometry

subsection \<open>The feed normaliser (\<open>tsunamiService.ts\<close>)\<close>

definition mapUsgsFeatureToEarthquakeEvent :: "UsgsFeature \<Rightarrow> EarthquakeEvent option" where
  "mapUsgsFeatureToEarthquakeEvent feature =
     (case mag (properties feature) of
        None \<Rightarrow> None
      | Some m \<Rightarrow>
          (case coordinates (geometry feature) of
             (lon', lat', depth') \<Rightarrow>
               let isTsunami = (tsunami (properties feature) = 1);
                   level = (if isTsunami then Warning
                            else if m \<ge> 75 / 10 then Advisory
                            else if m \<ge> 65 / 10 then Info
                            else NoneLevel)
               in Some \<lparr> id_ev = id_f feature,
                          title = title_p (properties feature),
                          updated = updated_p (properties feature),
                          link = url (properties feature),
                          location = place (properties feature),
                          magnitude = m,
                          depth = depth',
                          lat = lat',
                          lon = lon',
                          isTsunamiWarning = isTsunami,
                          rawSummary = title_p (properties feature),
                          alertLevel = level \<rparr>))"

text \<open>\<open>.filter(event => event !== null)\<close> after \<open>.map(mapUsgsFeatureToEarthquakeEvent)\<close>.\<close>

fun filter_not_null :: "'a option list \<Rightarrow> 'a list" where
  "filter_not_null [] = []"
| "filter_not_null (None # xs) = filter_not_null xs"
| "filter_not_null (Some x # xs) = x # filter_not_null xs"

text \<open>
  \<open>Array.prototype.sort(compareFn)\<close>. The language standard requires a stable sort, so for
  a consistent comparator the result is determined; it is computed here by a stable
  insertion sort: an element goes in front of the first element that does not have to
  precede it (\<open>compareFn x y \<le> 0\<close>).
\<close>

fun insert_by :: "('a \<Rightarrow> 'a \<Rightarrow> int) \<Rightarrow> 'a \<Rightarrow> 'a list \<Rightarrow> 'a list" where
  "insert_by cmp x [] = [x]"
| "insert_by cmp x (y # ys) =
     (if cmp x y \<le> 0 then x # y # ys else y # insert_by cmp x ys)"

definition Array_sort :: "('a \<Rightarrow> 'a \<Rightarrow> int) \<Rightarrow> 'a list \<Rightarrow> 'a list" where
  "Array_sort cmp xs = foldr (insert_by cmp) xs []"

text \<open>The comparator \<open>(a, b) => b.updated.getTime() - a.updated.getTime()\<close>; the sort
  reads only its sign.\<close>

definition byUpdatedDesc :: "EarthquakeEvent \<Rightarrow> EarthquakeEvent \<Rightarrow> int" where
  "byUpdatedDesc a b = updated b - updated a"

text \<open>The pipeline applied to \<open>data.features\<close>.\<close>

definition normalize :: "UsgsFeature list \<Rightarrow> EarthquakeEvent list" where
  "normalize features =
     Array_sort byUpdatedDesc
       (filter_not_null (map mapUsgsFeatureToEarthquakeEvent features))"

text \<open>
  \<open>fetchTsunamiData\<close>: the outcome of the HTTP request is an input. A transport failure,
  a response that is not ok and a body that is not JSON all end in the re-thrown error; a
  body without a \<open>features\<close> array gives the empty list.
\<close>

datatype fetch_outcome =
    TransportFailure
  | NotOk string
  | BadJson
  | Json "UsgsFeature list option"

datatype fetch_error = FetchFailed | HttpError string | ParseFailed

fun fetchTsunamiData :: "fetch_outcome \<Rightarrow> fetch_error + EarthquakeEvent list" where
  "fetchTsunamiData TransportFailure = Inl FetchFailed"
| "fetchTsunamiData (NotOk statusText) = Inl (HttpError statusText)"
| "fetchTsunamiData BadJson = Inl ParseFailed"
| "fetchTsunamiData (Json (Some features)) = Inr (normalize features)"
| "fetchTsunamiData (Json None) = Inr []"

subsection \<open>Built-in string operations used by the alert effect\<close>

text \<open>\<open>StringIndexOf(s, pat, 0)\<close>: the position of the first occurrence.\<close>

fun startsWith :: "string \<Rightarrow> string \<Rightarrow> bool" where
  "startsWith s [] = True"
| "startsWith [] (p # ps) = False"
| "startsWith (c # cs) (p # ps) = (c = p \<and> startsWith cs ps)"

fun indexOf :: "string \<Rightarrow> string \<Rightarrow> nat option" where
  "indexOf [] pat = (if startsWith [] pat then Some 0 else None)"
| "indexOf (c # cs) pat =
     (if startsWith (c # cs) pat then Some 0 else map_option Suc (indexOf cs pat))"

text \<open>
  \<open>GetSubstitution\<close> for a string pattern (no captures): in the replacement text,
  \<open>$$\<close> stands for a dollar sign, \<open>$&\<close> for the matched text, \<open>$`\<close> for the text before
  the match and \<open>$'\<close> for the text after it; every other character, a dollar sign
  followed by anything else included, stands for itself.
\<close>

fun getSubstitution :: "string \<Rightarrow> string \<Rightarrow> nat \<Rightarrow> string \<Rightarrow> string" where
  "getSubstitution matched str position [] = []"
| "getSubstitution matched str position [c] = [c]"
| "getSubstitution matched str position (c # d # rest) =
     (if c = CHR ''$'' \<and> d = CHR ''$'' then
        CHR ''$'' # getSubstitution matched str position rest
      else if c = CHR ''$'' \<and> d = CHR 0x60 then
        take position str @ getSubstitution matched str position rest
      else if c = CHR ''$'' \<and> d = CHR ''&'' then
        matched @ getSubstitution matched str position rest
      else if c = CHR ''$'' \<and> d = CHR 0x27 then
        drop (position + length matched) str @ getSubstitution matched str position rest
      else c # getSubstitution matched str position (d # rest))"

text \<open>\<open>String.prototype.replace(searchValue, replaceValue)\<close> with two strings: only the
  first occurrence is replaced.\<close>

definition replace :: "string \<Rightarrow> string \<Rightarrow> string \<Rightarrow> string" where
  "replace s searchValue replaceValue =
     (case indexOf s searchValue of
        None \<Rightarrow> s
      | Some p \<Rightarrow>
          take p s @ getSubstitution searchValue s p replaceValue
            @ drop (p + length searchValue) s)"

text \<open>Decimal digits of a natural number.\<close>

definition digit :: "nat \<Rightarrow> char" where
  "digit n = ''0123456789'' ! n"

function decimal :: "nat \<Rightarrow> string" where
  "decimal n = (if n < 10 then [digit n] else decimal (n div 10) @ [digit (n mod 10)])"
  by pat_completeness auto
termination
  by (relation "measure (\<lambda>n. n)") auto

declare decimal.simps [simp del]

text \<open>
  The host: the locale- and zone-dependent renderings of a date used by
  \<open>formatDateTime\<close>, and \<open>Number::toString\<close>, which \<open>toFixed\<close> falls back to from
  \<open>10\<^sup>2\<^sup>1\<close> on.
\<close>

record host =
  toLocaleDateString_enGB :: "int \<Rightarrow> string"
  toLocaleTimeString_enUS_24h :: "int \<Rightarrow> string"
  Number_toString :: "real \<Rightarrow> string"

text \<open>
  \<open>Number.prototype.toFixed(1)\<close>: the sign is split off; below \<open>10\<^sup>2\<^sup>1\<close> the integer
  \<open>n\<close> with \<open>n / 10\<close> nearest to the value is taken, the larger one in a tie, and written
  with one digit after the point.
\<close>

definition toFixed1 :: "host \<Rightarrow> real \<Rightarrow> string" where
  "toFixed1 h x =
     (let s = (if x < 0 then ''-'' else '''');
          x' = (if x < 0 then - x else x)
      in if x' \<ge> 10 ^ 21 then s @ Number_toString h x'
         else let n = nat \<lfloor>x' * 10 + 1 / 2\<rfloor>
              in s @ decimal (n div 10) @ ''.'' @ [digit (n mod 10)])"

definition formatDateTime :: "host \<Rightarrow> int \<Rightarrow> string" where
  "formatDateTime h date =
     toLocaleDateString_enGB h date @ '' '' @ toLocaleTimeString_enUS_24h h date"

subsection \<open>The alert effect of \<open>TsunamiDashboard\<close> (\<open>App.tsx\<close>)\<close>

text \<open>The chain of five \<open>replace\<close> calls that renders the body.\<close>

definition renderBody :: "host \<Rightarrow> AlertSettings \<Rightarrow> EarthquakeEvent \<Rightarrow> string" where
  "renderBody h alertSettings ev =
     replace
      (replace
        (replace
          (replace
            (replace (emailTemplate alertSettings)
               ''{magnitude}'' (toFixed1 h (magnitude ev)))
             ''{location}'' (location ev))
           ''{depth}'' (toFixed1 h (depth ev) @ '' km''))
         ''{time}'' (formatDateTime h (updated ev)))
       ''{link}'' (link ev)"

text \<open>A JavaScript \<open>Set\<close> of strings keeps its members in insertion order.\<close>

definition Set_add :: "string list \<Rightarrow> string \<Rightarrow> string list" where
  "Set_add s x = (if x \<in> set s then s else s @ [x])"

definition Set_of :: "string list \<Rightarrow> string list" where
  "Set_of xs = foldl Set_add [] xs"

text \<open>
  The state of the \<open>forEach\<close> loop: the set \<open>newProcessed\<close>, the array \<open>newAlerts\<close>, and the
  number of times the clock has been read. The \<open>k\<close>-th evaluation of
  \<open>new Date().toISOString()\<close> during a run yields \<open>nowISO k\<close>.
\<close>

record loop_state =
  newProcessed :: "string list"
  newAlerts :: "GeneratedAlert list"
  clockReads :: nat

definition forEach_body ::
  "host \<Rightarrow> (nat \<Rightarrow> string) \<Rightarrow> AlertSettings \<Rightarrow> loop_state \<Rightarrow> EarthquakeEvent \<Rightarrow> loop_state" where
  "forEach_body h nowISO alertSettings st ev =
     (if id_ev ev \<in> set (newProcessed st) then st
      else if magnitude ev \<ge> minMagnitude alertSettings then
        let body' = renderBody h alertSettings ev;
            newAlert = \<lparr> id_al = id_ev ev @ ''-'' @ nowISO (clockReads st),
                         timestamp = nowISO (clockReads st + 1),
                         event = ev,
                         body = body' \<rparr>
        in \<lparr> newProcessed = Set_add (newProcessed st) (id_ev ev),
             newAlerts = newAlerts st @ [newAlert],
             clockReads = clockReads st + 2 \<rparr>
      else st)"

definition scanEvents ::
  "host \<Rightarrow> (nat \<Rightarrow> string) \<Rightarrow> AlertSettings \<Rightarrow> string list \<Rightarrow> EarthquakeEvent list \<Rightarrow> loop_state" where
  "scanEvents h nowISO alertSettings processed events =
     foldl (forEach_body h nowISO alertSettings)
       \<lparr> newProcessed = Set_of processed, newAlerts = [], clockReads = 0 \<rparr>
       events"

text \<open>The two persisted values the effect writes.\<close>

record app_state =
  processedEvents :: "string list"
  generatedAlerts :: "GeneratedAlert list"

definition shortCircuit :: "AlertSettings \<Rightarrow> EarthquakeEvent list \<Rightarrow> bool" where
  "shortCircuit alertSettings events =
     (\<not> notificationsEnabled alertSettings
      \<or> length (recipients alertSettings) = 0
      \<or> length events = 0)"

text \<open>
  The contract of the specification, read off the effect: the alerts generated by one run
  and the processed ids after it.
\<close>

definition evaluate ::
  "host \<Rightarrow> (nat \<Rightarrow> string) \<Rightarrow> EarthquakeEvent list \<Rightarrow> AlertSettings \<Rightarrow> string list
     \<Rightarrow> GeneratedAlert list \<times> string list" where
  "evaluate h nowISO events alertSettings processed =
     (if shortCircuit alertSettings events then ([], processed)
      else
        let st = scanEvents h nowISO alertSettings processed events
        in if length (newAlerts st) > 0 then (newAlerts st, newProcessed st)
           else ([], processed))"

text \<open>The effect itself, as a transition of the persisted state.\<close>

definition alertEffect ::
  "host \<Rightarrow> (nat \<Rightarrow> string) \<Rightarrow> EarthquakeEvent list \<Rightarrow> AlertSettings \<Rightarrow> app_state \<Rightarrow> app_state" where
  "alertEffect h nowISO events alertSettings s =
     (if shortCircuit alertSettings events then s
      else
        let st = scanEvents h nowISO alertSettings (processedEvents s) events
        in if length (newAlerts st) > 0 then
             \<lparr> processedEvents = newProcessed st,
               generatedAlerts = take 50 (newAlerts st @ generatedAlerts s) \<rparr>
           else s)"

text \<open>A sequence of runs, each with its own clock, event list and settings.\<close>

fun runs ::
  "host \<Rightarrow> ((nat \<Rightarrow> string) \<times> EarthquakeEvent list \<times> AlertSettings) list \<Rightarrow> app_state \<Rightarrow> app_state" where
  "runs h [] s = s"
| "runs h ((nowISO, events, alertSettings) # calls) s =
     runs h calls (alertEffect h nowISO events alertSettings s)"

subsection \<open>The rendering as the specification words it\<close>

text \<open>
  The specification says that each placeholder is substituted once by the value itself.
  \<open>replaceFirst\<close> puts the value, character for character, in place of the first
  occurrence of the placeholder, and \<open>renderBody_spec\<close> chains it in the order of the source.
\<close>

definition replaceFirst :: "string \<Rightarrow> string \<Rightarrow> string \<Rightarrow> string" where
  "replaceFirst s placeholder v =
     (case indexOf s placeholder of
        None \<Rightarrow> s
      | Some p \<Rightarrow> take p s @ v @ drop (p + length placeholder) s)"

definition renderBody_spec :: "host \<Rightarrow> AlertSettings \<Rightarrow> EarthquakeEvent \<Rightarrow> string" where
  "renderBody_spec h alertSettings ev =
     replaceFirst
      (replaceFirst
        (replaceFirst
          (replaceFirst
            (replaceFirst (emailTemplate alertSettings)
               ''{magnitude}'' (toFixed1 h (magnitude ev)))
             ''{location}'' (location ev))
           ''{depth}'' (toFixed1 h (depth ev) @ '' km''))
         ''{time}'' (formatDateTime h (updated ev)))
       ''{link}'' (link ev)"

subsection \<open>An invariant of the loop\<close>

text \<open>Every alert recorded so far carries the two clock readings taken when it was built.\<close>

definition stamped :: "(nat \<Rightarrow> string) \<Rightarrow> loop_state \<Rightarrow> bool" where
  "stamped nowISO st \<longleftrightarrow>
     clockReads st = 2 * length (newAlerts st) \<and>
     (\<forall>i < length (newAlerts st).
        id_al (newAlerts st ! i) = id_ev (event (newAlerts st ! i)) @ ''-'' @ nowISO (2 * i) \<and>
        timestamp (newAlerts st ! i) = nowISO (2 * i + 1))"

subsection \<open>Example data\<close>

text \<open>
  A host in the UTC zone, given at the time value 0 (all example events have
  \<open>updated = 0\<close> when their time is rendered) and at the number \<open>10\<^sup>2\<^sup>1\<close>; and two clocks
  that stand one millisecond apart.
\<close>

definition exampleHost :: host where
  "exampleHost =
     \<lparr> toLocaleDateString_enGB = (\<lambda>t. ''01/01/1970''),
       toLocaleTimeString_enUS_24h = (\<lambda>t. ''00:00:00''),
       Number_toString = (\<lambda>x. ''1e+21'') \<rparr>"

definition clockA :: "nat \<Rightarrow> string" where
  "clockA k = ''2026-01-01T00:00:00.000Z''"

definition clockB :: "nat \<Rightarrow> string" where
  "clockB k = ''2026-01-01T00:00:00.001Z''"

text \<open>The event and the settings of the specification's example.\<close>

definition chileEvent :: EarthquakeEvent where
  "chileEvent =
     \<lparr> id_ev = ''e1'', title = ''M 7.2 - Chile'', updated = 0,
       link = ''https://example.org/e1'', location = ''Chile'', magnitude = 72 / 10,
       depth = 10, lat = - 33, lon = - 71, isTsunamiWarning = False,
       rawSummary = ''M 7.2 - Chile'', alertLevel = Info \<rparr>"

definition chileSettings :: AlertSettings where
  "chileSettings =
     \<lparr> minMagnitude = 7, notificationsEnabled = True, recipients = [''a@b.com''],
       emailTemplate = ''M{magnitude} near {location}'' \<rparr>"

text \<open>The same event with a place name that contains the two characters \<open>$&\<close>.\<close>

definition dollarEvent :: EarthquakeEvent where
  "dollarEvent = chileEvent \<lparr> location := ''$&'' \<rparr>"

text \<open>An event below the threshold of 7, and the settings with the threshold lowered.\<close>

definition quietEvent :: EarthquakeEvent where
  "quietEvent = chileEvent \<lparr> id_ev := ''e2'', magnitude := 66 / 10 \<rparr>"

definition loweredSettings :: AlertSettings where
  "loweredSettings = chileSettings \<lparr> minMagnitude := 6 \<rparr>"

text \<open>
  The settings a new installation starts with (the default of \<open>alertSettings\<close> in
  \<open>TsunamiDashboard\<close>: no recipient yet), and the same with the threshold lowered.
\<close>

definition defaultSettings :: AlertSettings where
  "defaultSettings =
     \<lparr> minMagnitude = 7, notificationsEnabled = True, recipients = [],
       emailTemplate = ''ALERT: A magnitude {magnitude} earthquake occurred near {location} at {time}. More details: {link}'' \<rparr>"

definition loweredDefault :: AlertSettings where
  "loweredDefault = defaultSettings \<lparr> minMagnitude := 6 \<rparr>"

text \<open>An event below the threshold that carries the id of \<open>chileEvent\<close>.\<close>

definition twinEvent :: EarthquakeEvent where
  "twinEvent = chileEvent \<lparr> magnitude := 66 / 10 \<rparr>"

text \<open>Persisted states: nothing stored yet; \<open>e1\<close> already processed; a full alert log.\<close>

definition emptyState :: app_state where
  "emptyState = \<lparr> processedEvents = [], generatedAlerts = [] \<rparr>"

definition seenState :: app_state where
  "seenState = \<lparr> processedEvents = [''e1''], generatedAlerts = [] \<rparr>"

definition oldAlert :: GeneratedAlert where
  "oldAlert =
     \<lparr> id_al = ''e0-2025-12-31T00:00:00.000Z'', timestamp = ''2025-12-31T00:00:00.000Z'',
       event = chileEvent \<lparr> id_ev := ''e0'' \<rparr>, body = ''M7.2 near Chile'' \<rparr>"

definition fullState :: app_state where
  "fullState = \<lparr> processedEvents = [''e0''], generatedAlerts = replicate 50 oldAlert \<rparr>"

text \<open>Feed records: the specification's example, and variations of it.\<close>

definition tongaFeature :: UsgsFeature where
  "tongaFeature =
     \<lparr> id_f = ''x1'',
       properties = \<lparr> mag = Some (78 / 10), place = ''Tonga'', time_p = 1000,
                      updated_p = 1000, url = ''https://example.org/x1'',
                      title_p = ''M 7.8 - Tonga'', tsunami = 1 \<rparr>,
       geometry = \<lparr> coordinates = (- 1752 / 10, - 201 / 10, 10) \<rparr> \<rparr>"

definition megaFeature :: UsgsFeature where
  "megaFeature = tongaFeature \<lparr> properties := (properties tongaFeature) \<lparr> mag := Some 9 \<rparr> \<rparr>"

definition noMagFeature :: UsgsFeature where
  "noMagFeature =
     tongaFeature \<lparr> id_f := ''x0'', properties := (properties tongaFeature) \<lparr> mag := None \<rparr> \<rparr>"

definition laterFeature :: UsgsFeature where
  "laterFeature =
     tongaFeature \<lparr> id_f := ''x2'',
                    properties := (properties tongaFeature) \<lparr> updated_p := 2000 \<rparr> \<rparr>"

definition tieFeature :: UsgsFeature where
  "tieFeature = tongaFeature \<lparr> id_f := ''x3'' \<rparr>"


section \<open>Properties of the feed normaliser\<close>

subsection \<open>Dropping the records without a magnitude\<close>

lemma set_filter_not_null: "set (filter_not_null xs) = {x. Some x \<in> set xs}"
  by (induction xs rule: filter_not_null.induct) auto

lemma length_filter_not_null:
  "(\<And>x. f x = None \<longleftrightarrow> \<not> P x) \<Longrightarrow>
   length (filter_not_null (map f xs)) = length (filter P xs)"
proof (induction xs)
  case Nil
  show ?case by simp
next
  case (Cons x xs)
  from Cons.prems have px: "f x = None \<longleftrightarrow> \<not> P x" by simp
  from Cons.IH[OF Cons.prems] px show ?case by (cases "f x") auto
qed

lemma filter_not_null_map_filter:
  "(\<And>x. f x = None \<longleftrightarrow> \<not> P x) \<Longrightarrow>
   filter_not_null (map f (filter P xs)) = filter_not_null (map f xs)"
proof (induction xs)
  case Nil
  show ?case by simp
next
  case (Cons x xs)
  from Cons.prems have px: "f x = None \<longleftrightarrow> \<not> P x" by simp
  from Cons.IH[OF Cons.prems] px show ?case by (cases "f x") auto
qed

lemma map_feature_None_iff:
  "mapUsgsFeatureToEarthquakeEvent f = None \<longleftrightarrow> mag (properties f) = None"
  by (simp add: mapUsgsFeatureToEarthquakeEvent_def Let_def split: option.splits prod.splits)

lemma map_feature_Some_magnitude:
  "mapUsgsFeatureToEarthquakeEvent f = Some e \<Longrightarrow> mag (properties f) = Some (magnitude e)"
  by (auto simp: mapUsgsFeatureToEarthquakeEvent_def Let_def split: option.splits prod.splits)

subsection \<open>The sort\<close>

lemma set_insert_by: "set (insert_by cmp x ys) = insert x (set ys)"
  by (induction ys) auto

lemma length_insert_by: "length (insert_by cmp x ys) = Suc (length ys)"
  by (induction ys) auto

lemma Array_sort_Cons:
  "Array_sort cmp (x # xs) = insert_by cmp x (Array_sort cmp xs)"
  by (simp add: Array_sort_def)

lemma set_Array_sort: "set (Array_sort cmp xs) = set xs"
  by (induction xs) (simp_all add: Array_sort_Cons set_insert_by, simp add: Array_sort_def)

lemma length_Array_sort: "length (Array_sort cmp xs) = length xs"
  by (induction xs) (simp_all add: Array_sort_Cons length_insert_by, simp add: Array_sort_def)

lemma sorted_insert_by:
  "sorted_wrt (\<lambda>a b. updated b \<le> updated a) ys \<Longrightarrow>
   sorted_wrt (\<lambda>a b. updated b \<le> updated a) (insert_by byUpdatedDesc x ys)"
  by (induction ys) (auto simp: set_insert_by byUpdatedDesc_def)

lemma sorted_Array_sort:
  "sorted_wrt (\<lambda>a b. updated b \<le> updated a) (Array_sort byUpdatedDesc xs)"
proof (induction xs)
  case Nil
  show ?case by (simp add: Array_sort_def)
next
  case (Cons x xs)
  then show ?case by (simp add: Array_sort_Cons sorted_insert_by)
qed

text \<open>An element is inserted in front of the elements that carry its own time stamp.\<close>

lemma filter_insert_by_same:
  "updated x = t \<Longrightarrow>
   filter (\<lambda>e. updated e = t) (insert_by byUpdatedDesc x ys) =
     x # filter (\<lambda>e. updated e = t) ys"
  by (induction ys) (auto simp: byUpdatedDesc_def)

lemma filter_insert_by_other:
  "updated x \<noteq> t \<Longrightarrow>
   filter (\<lambda>e. updated e = t) (insert_by byUpdatedDesc x ys) =
     filter (\<lambda>e. updated e = t) ys"
  by (induction ys) auto

lemma stable_Array_sort:
  "filter (\<lambda>e. updated e = t) (Array_sort byUpdatedDesc xs) = filter (\<lambda>e. updated e = t) xs"
proof (induction xs)
  case Nil
  show ?case by (simp add: Array_sort_def)
next
  case (Cons x xs)
  show ?case
  proof (cases "updated x = t")
    case True
    with Cons show ?thesis by (simp add: Array_sort_Cons filter_insert_by_same)
  next
    case False
    with Cons show ?thesis by (simp add: Array_sort_Cons filter_insert_by_other)
  qed
qed

lemmas feed_examples =
  tongaFeature_def megaFeature_def noMagFeature_def laterFeature_def tieFeature_def

subsection \<open>The claims about the normaliser\<close>

text \<open>
  Claim C2. Every record with a magnitude yields an event, and the alert level of that
  event is given by the first matching rule of: tsunami flag set, then \<open>warning\<close>;
  magnitude at least 7.5, then \<open>advisory\<close>; magnitude at least 6.5, then \<open>info\<close>;
  otherwise \<open>none\<close>. The flag of the event is the record's \<open>tsunami = 1\<close> and its
  magnitude is the record's.
\<close>

theorem alertLevel_first_match:
  "mag (properties f) = Some m \<Longrightarrow>
     \<exists>e. mapUsgsFeatureToEarthquakeEvent f = Some e \<and>
         magnitude e = m \<and>
         isTsunamiWarning e = (tsunami (properties f) = 1) \<and>
         alertLevel e =
           (if tsunami (properties f) = 1 then Warning
            else if m \<ge> 75 / 10 then Advisory
            else if m \<ge> 65 / 10 then Info
            else NoneLevel) \<and>
         alertLevel e =
           (if isTsunamiWarning e then Warning
            else if magnitude e \<ge> 75 / 10 then Advisory
            else if magnitude e \<ge> 65 / 10 then Info
            else NoneLevel)"
  by (cases "coordinates (geometry f)")
    (simp add: mapUsgsFeatureToEarthquakeEvent_def Let_def)

text \<open>A record with the tsunami flag and magnitude 9.0 is a \<open>warning\<close>, not an \<open>advisory\<close>.\<close>

theorem alertLevel_first_match_witness:
  "tsunami (properties megaFeature) = 1 \<and> mag (properties megaFeature) = Some 9 \<and>
   map_option alertLevel (mapUsgsFeatureToEarthquakeEvent megaFeature) = Some Warning \<and>
   map_option magnitude (mapUsgsFeatureToEarthquakeEvent megaFeature) = Some 9"
proof -
  have m: "mag (properties megaFeature) = Some 9"
    by (simp add: feed_examples)
  have t: "tsunami (properties megaFeature) = 1"
    by (simp add: feed_examples)
  from alertLevel_first_match[OF m] obtain e
    where "mapUsgsFeatureToEarthquakeEvent megaFeature = Some e"
      and "magnitude e = 9"
      and "alertLevel e =
        (if tsunami (properties megaFeature) = 1 then Warning
         else if (9::real) \<ge> 75 / 10 then Advisory
         else if (9::real) \<ge> 65 / 10 then Info
         else NoneLevel)"
    by blast
  with m t show ?thesis by simp
qed

text \<open>
  Claim C5. The records without a magnitude contribute nothing to the output of
  \<open>normalize\<close>: the output is that of the input with those records removed, it has one
  event per record with a magnitude, every event of the output is the image of an input
  record with that magnitude, a record without magnitude maps to no event, and the fetch
  still succeeds.
\<close>

theorem normalize_drops_missing_magnitude:
  "normalize features = normalize (filter (\<lambda>f. mag (properties f) \<noteq> None) features) \<and>
   length (normalize features) = length (filter (\<lambda>f. mag (properties f) \<noteq> None) features) \<and>
   (\<forall>e \<in> set (normalize features). \<exists>f \<in> set features.
       mag (properties f) = Some (magnitude e) \<and> mapUsgsFeatureToEarthquakeEvent f = Some e) \<and>
   (\<forall>f \<in> set features. mag (properties f) = None \<longrightarrow>
       mapUsgsFeatureToEarthquakeEvent f = None) \<and>
   fetchTsunamiData (Json (Some features)) = Inr (normalize features)"
proof -
  have pred: "mapUsgsFeatureToEarthquakeEvent f = None \<longleftrightarrow> \<not> mag (properties f) \<noteq> None"
    for f by (simp add: map_feature_None_iff)
  have drop: "normalize features = normalize (filter (\<lambda>f. mag (properties f) \<noteq> None) features)"
    unfolding normalize_def
    by (simp only: filter_not_null_map_filter[of mapUsgsFeatureToEarthquakeEvent, OF pred])
  have len: "length (normalize features) =
      length (filter (\<lambda>f. mag (properties f) \<noteq> None) features)"
    unfolding normalize_def length_Array_sort
    by (rule length_filter_not_null[OF pred])
  have origin: "\<exists>f \<in> set features.
       mag (properties f) = Some (magnitude e) \<and> mapUsgsFeatureToEarthquakeEvent f = Some e"
    if "e \<in> set (normalize features)" for e
  proof -
    from that obtain f where "f \<in> set features" "mapUsgsFeatureToEarthquakeEvent f = Some e"
      by (auto simp: normalize_def set_Array_sort set_filter_not_null)
    then show ?thesis by (auto dest: map_feature_Some_magnitude)
  qed
  from drop len origin show ?thesis
    by (simp add: map_feature_None_iff)
qed

theorem normalize_drops_missing_magnitude_witness:
  "mag (properties noMagFeature) = None \<and>
   length (normalize [noMagFeature, tongaFeature]) = 1 \<and>
   normalize [noMagFeature, tongaFeature] = normalize [tongaFeature] \<and>
   fetchTsunamiData (Json (Some [noMagFeature, tongaFeature])) = Inr (normalize [tongaFeature])"
proof -
  have none: "mag (properties noMagFeature) = None"
    by (simp add: feed_examples)
  have some: "mag (properties tongaFeature) \<noteq> None"
    by (simp add: feed_examples)
  have keep: "filter (\<lambda>f. mag (properties f) \<noteq> None) [noMagFeature, tongaFeature] =
      [tongaFeature]"
    using none some by (simp del: not_None_eq)
  from normalize_drops_missing_magnitude[of "[noMagFeature, tongaFeature]", unfolded keep]
  have "normalize [noMagFeature, tongaFeature] = normalize [tongaFeature]"
    and "length (normalize [noMagFeature, tongaFeature]) = length [tongaFeature]"
    and "fetchTsunamiData (Json (Some [noMagFeature, tongaFeature])) =
      Inr (normalize [noMagFeature, tongaFeature])"
    by blast+
  with none show ?thesis by simp
qed

text \<open>
  Claim C6. The output of \<open>normalize\<close> is in descending order of \<open>updated\<close>: of two
  adjacent events the first has the later or the same time stamp. The sort is stable: the
  events that share a time stamp are in the order in which their records came in.
\<close>

theorem normalize_sorted_stable:
  "sorted_wrt (\<lambda>a b. updated b \<le> updated a) (normalize features) \<and>
   (\<forall>i. Suc i < length (normalize features) \<longrightarrow>
      updated (normalize features ! Suc i) \<le> updated (normalize features ! i)) \<and>
   (\<forall>t. filter (\<lambda>e. updated e = t) (normalize features) =
      filter (\<lambda>e. updated e = t)
        (filter_not_null (map mapUsgsFeatureToEarthquakeEvent features)))"
proof -
  have sorted: "sorted_wrt (\<lambda>a b. updated b \<le> updated a) (normalize features)"
    by (simp add: normalize_def sorted_Array_sort)
  then have "\<forall>i. Suc i < length (normalize features) \<longrightarrow>
      updated (normalize features ! Suc i) \<le> updated (normalize features ! i)"
    by (simp add: sorted_wrt_iff_nth_less)
  with sorted show ?thesis
    by (simp add: normalize_def stable_Array_sort)
qed

text \<open>Time stamps 1000, 2000, 1000: the record of 2000 comes first, the other two keep
  their order.\<close>

theorem normalize_sorted_stable_witness:
  "updated (normalize [tongaFeature, laterFeature, tieFeature] ! 1)
     \<le> updated (normalize [tongaFeature, laterFeature, tieFeature] ! 0) \<and>
   map id_ev (filter (\<lambda>e. updated e = 1000) (normalize [tongaFeature, laterFeature, tieFeature]))
     = [''x1'', ''x3''] \<and>
   map id_ev (normalize [tongaFeature, laterFeature, tieFeature]) = [''x2'', ''x1'', ''x3'']"
proof -
  let ?out = "normalize [tongaFeature, laterFeature, tieFeature]"
  have len: "length ?out = 3"
    by (simp add: normalize_def length_Array_sort mapUsgsFeatureToEarthquakeEvent_def
        feed_examples)
  from normalize_sorted_stable[of "[tongaFeature, laterFeature, tieFeature]"]
  have adj: "Suc 0 < length ?out \<longrightarrow> updated (?out ! Suc 0) \<le> updated (?out ! 0)"
    and stable: "filter (\<lambda>e. updated e = 1000) ?out =
      filter (\<lambda>e. updated e = 1000)
        (filter_not_null (map mapUsgsFeatureToEarthquakeEvent
           [tongaFeature, laterFeature, tieFeature]))"
    by blast+
  from adj len have first: "updated (?out ! 1) \<le> updated (?out ! 0)" by simp
  from stable have ties: "map id_ev (filter (\<lambda>e. updated e = 1000) ?out) = [''x1'', ''x3'']"
    by (simp add: mapUsgsFeatureToEarthquakeEvent_def feed_examples)
  have order: "map id_ev ?out = [''x2'', ''x1'', ''x3'']"
    by (simp add: normalize_def Array_sort_def byUpdatedDesc_def
        mapUsgsFeatureToEarthquakeEvent_def feed_examples)
  from first ties order show ?thesis by simp
qed

text \<open>
  Claim C8. Every record with a magnitude yields an event, and the coordinate triple is
  read as [longitude, latitude, depth]: the event's \<open>lon\<close> is the first component of the
  triple, \<open>lat\<close> the second, \<open>depth\<close> the third.
\<close>

theorem coordinates_not_transposed:
  "mag (properties f) = Some m \<Longrightarrow> coordinates (geometry f) = (x, y, z) \<Longrightarrow>
     \<exists>e. mapUsgsFeatureToEarthquakeEvent f = Some e \<and>
         lon e = x \<and> lat e = y \<and> depth e = z"
  by (simp add: mapUsgsFeatureToEarthquakeEvent_def Let_def)

text \<open>The record \<open>x1\<close> of the specification: coordinates [-175.2, -20.1, 10], a
  \<open>warning\<close>.\<close>

theorem coordinates_not_transposed_witness:
  "mag (properties tongaFeature) = Some (78 / 10) \<and>
   coordinates (geometry tongaFeature) = (- 1752 / 10, - 201 / 10, 10) \<and>
   map_option lon (mapUsgsFeatureToEarthquakeEvent tongaFeature) = Some (- 1752 / 10) \<and>
   map_option lat (mapUsgsFeatureToEarthquakeEvent tongaFeature) = Some (- 201 / 10) \<and>
   map_option depth (mapUsgsFeatureToEarthquakeEvent tongaFeature) = Some 10 \<and>
   map_option alertLevel (mapUsgsFeatureToEarthquakeEvent tongaFeature) = Some Warning"
proof -
  have m: "mag (properties tongaFeature) = Some (78 / 10)"
    by (simp add: feed_examples)
  have g: "coordinates (geometry tongaFeature) = (- 1752 / 10, - 201 / 10, 10)"
    by (simp add: feed_examples)
  from coordinates_not_transposed[OF m g] obtain e
    where e: "mapUsgsFeatureToEarthquakeEvent tongaFeature = Some e"
      and "lon e = - 1752 / 10" and "lat e = - 201 / 10" and "depth e = 10"
    by blast
  moreover from e have "alertLevel e = Warning"
    by (auto simp: mapUsgsFeatureToEarthquakeEvent_def feed_examples)
  ultimately show ?thesis using m g by simp
qed


section \<open>Properties of the alert effect\<close>

subsection \<open>The set of processed ids\<close>

lemma set_Set_add: "set (Set_add s x) = insert x (set s)"
  by (auto simp: Set_add_def)

lemma set_foldl_Set_add: "set (foldl Set_add acc xs) = set acc \<union> set xs"
  by (induction xs arbitrary: acc) (auto simp: set_Set_add)

lemma set_Set_of: "set (Set_of xs) = set xs"
  by (simp add: Set_of_def set_foldl_Set_add)

subsection \<open>One turn of the loop\<close>

text \<open>A turn leaves the loop state alone, or records one alert and one id.\<close>

lemma forEach_body_skip:
  "id_ev e \<in> set (newProcessed acc) \<or> magnitude e < minMagnitude st \<Longrightarrow>
   forEach_body h c st acc e = acc"
  by (auto simp: forEach_body_def)

lemma forEach_body_fire:
  "id_ev e \<notin> set (newProcessed acc) \<Longrightarrow> minMagnitude st \<le> magnitude e \<Longrightarrow>
   forEach_body h c st acc e =
      \<lparr> newProcessed = newProcessed acc @ [id_ev e],
        newAlerts = newAlerts acc @
          [\<lparr> id_al = id_ev e @ ''-'' @ c (clockReads acc),
             timestamp = c (clockReads acc + 1),
             event = e,
             body = renderBody h st e \<rparr>],
        clockReads = clockReads acc + 2 \<rparr>"
  by (simp add: forEach_body_def Let_def Set_add_def)

lemma forEach_body_cases:
  "forEach_body h c st acc e = acc \<or>
   (id_ev e \<notin> set (newProcessed acc) \<and> minMagnitude st \<le> magnitude e \<and>
    forEach_body h c st acc e =
      \<lparr> newProcessed = newProcessed acc @ [id_ev e],
        newAlerts = newAlerts acc @
          [\<lparr> id_al = id_ev e @ ''-'' @ c (clockReads acc),
             timestamp = c (clockReads acc + 1),
             event = e,
             body = renderBody h st e \<rparr>],
        clockReads = clockReads acc + 2 \<rparr>)"
  by (simp add: forEach_body_def Let_def Set_add_def)

subsection \<open>The whole loop\<close>

lemma loop_processed_set:
  "set (newProcessed (foldl (forEach_body h c st) acc events)) =
   set (newProcessed acc) \<union> id_ev ` {e \<in> set events. minMagnitude st \<le> magnitude e}"
proof (induction events arbitrary: acc)
  case Nil
  show ?case by simp
next
  case (Cons e es)
  show ?case
  proof (cases "id_ev e \<in> set (newProcessed acc) \<or> magnitude e < minMagnitude st")
    case True
    then have "forEach_body h c st acc e = acc" by (rule forEach_body_skip)
    with Cons[of acc] True show ?thesis by auto
  next
    case False
    then have "set (newProcessed (forEach_body h c st acc e)) =
        insert (id_ev e) (set (newProcessed acc))"
      by (simp add: forEach_body_fire)
    with Cons[of "forEach_body h c st acc e"] False show ?thesis by auto
  qed
qed

lemma loop_alerts_extend:
  "\<exists>extra. newAlerts (foldl (forEach_body h c st) acc events) = newAlerts acc @ extra \<and>
     (\<forall>a \<in> set extra. event a \<in> set events \<and> minMagnitude st \<le> magnitude (event a) \<and>
        id_ev (event a) \<notin> set (newProcessed acc) \<and> body a = renderBody h st (event a)) \<and>
     set (newProcessed (foldl (forEach_body h c st) acc events)) =
       set (newProcessed acc) \<union> id_ev ` event ` set extra"
proof (induction events arbitrary: acc)
  case Nil
  show ?case by simp
next
  case (Cons e es)
  let ?acc' = "forEach_body h c st acc e"
  obtain extra where ex:
    "newAlerts (foldl (forEach_body h c st) ?acc' es) = newAlerts ?acc' @ extra"
    "\<forall>a \<in> set extra. event a \<in> set es \<and> minMagnitude st \<le> magnitude (event a) \<and>
        id_ev (event a) \<notin> set (newProcessed ?acc') \<and> body a = renderBody h st (event a)"
    "set (newProcessed (foldl (forEach_body h c st) ?acc' es)) =
       set (newProcessed ?acc') \<union> id_ev ` event ` set extra"
    using Cons[of ?acc'] by blast
  show ?case
  proof (cases "id_ev e \<in> set (newProcessed acc) \<or> magnitude e < minMagnitude st")
    case True
    then have same: "?acc' = acc" by (rule forEach_body_skip)
    show ?thesis
      apply (rule exI[of _ extra])
      using ex same by auto
  next
    case False
    let ?a = "\<lparr> id_al = id_ev e @ ''-'' @ c (clockReads acc),
             timestamp = c (clockReads acc + 1),
             event = e,
             body = renderBody h st e \<rparr>"
    from False have fire: "newAlerts ?acc' = newAlerts acc @ [?a]"
      "newProcessed ?acc' = newProcessed acc @ [id_ev e]"
      by (simp_all add: forEach_body_fire)
    show ?thesis
      apply (rule exI[of _ "?a # extra"])
      using ex fire False by auto
  qed
qed

lemma loop_no_alerts:
  "\<forall>e \<in> set events. minMagnitude st \<le> magnitude e \<longrightarrow> id_ev e \<in> set (newProcessed acc) \<Longrightarrow>
   foldl (forEach_body h c st) acc events = acc"
proof (induction events)
  case Nil
  show ?case by simp
next
  case (Cons e es)
  then have "forEach_body h c st acc e = acc"
    by (intro forEach_body_skip) (auto simp: not_le[symmetric])
  with Cons show ?case by simp
qed

lemma loop_generates:
  "\<forall>x \<in> set events. id_ev x = id_ev e \<longrightarrow> x = e \<Longrightarrow> e \<in> set events \<Longrightarrow>
   minMagnitude st \<le> magnitude e \<Longrightarrow> id_ev e \<notin> set (newProcessed acc) \<Longrightarrow>
   \<exists>a \<in> set (newAlerts (foldl (forEach_body h c st) acc events)).
      event a = e \<and> body a = renderBody h st e"
proof (induction events arbitrary: acc)
  case Nil
  then show ?case by simp
next
  case (Cons x xs)
  let ?acc' = "forEach_body h c st acc x"
  obtain extra where ext:
    "newAlerts (foldl (forEach_body h c st) ?acc' xs) = newAlerts ?acc' @ extra"
    using loop_alerts_extend[of h c st ?acc' xs] by blast
  show ?case
  proof (cases "x = e")
    case True
    with Cons.prems have "newAlerts ?acc' = newAlerts acc @
          [\<lparr> id_al = id_ev e @ ''-'' @ c (clockReads acc),
             timestamp = c (clockReads acc + 1),
             event = e,
             body = renderBody h st e \<rparr>]"
      by (simp add: forEach_body_fire)
    with ext show ?thesis by auto
  next
    case False
    with Cons.prems have in_xs: "e \<in> set xs" and ne: "id_ev x \<noteq> id_ev e"
      and rest: "\<forall>y \<in> set xs. id_ev y = id_ev e \<longrightarrow> y = e"
      by simp_all
    have "set (newProcessed ?acc') \<subseteq> insert (id_ev x) (set (newProcessed acc))"
      using forEach_body_cases[of h c st acc x] by auto
    with ne Cons.prems(4) have "id_ev e \<notin> set (newProcessed ?acc')" by auto
    with Cons.IH[of ?acc'] Cons.prems(3) in_xs rest show ?thesis by simp
  qed
qed

text \<open>The clock decides nothing but the id and the time stamp of an alert.\<close>

lemma loop_clock_independent:
  "newProcessed a1 = newProcessed a2 \<Longrightarrow>
   map event (newAlerts a1) = map event (newAlerts a2) \<Longrightarrow>
   map body (newAlerts a1) = map body (newAlerts a2) \<Longrightarrow>
   newProcessed (foldl (forEach_body h c1 st) a1 events) =
     newProcessed (foldl (forEach_body h c2 st) a2 events) \<and>
   map event (newAlerts (foldl (forEach_body h c1 st) a1 events)) =
     map event (newAlerts (foldl (forEach_body h c2 st) a2 events)) \<and>
   map body (newAlerts (foldl (forEach_body h c1 st) a1 events)) =
     map body (newAlerts (foldl (forEach_body h c2 st) a2 events))"
proof (induction events arbitrary: a1 a2)
  case Nil
  then show ?case by simp
next
  case (Cons e es)
  have "newProcessed (forEach_body h c1 st a1 e) = newProcessed (forEach_body h c2 st a2 e)"
    and "map event (newAlerts (forEach_body h c1 st a1 e)) =
         map event (newAlerts (forEach_body h c2 st a2 e))"
    and "map body (newAlerts (forEach_body h c1 st a1 e)) =
         map body (newAlerts (forEach_body h c2 st a2 e))"
    using Cons.prems by (simp_all add: forEach_body_def Let_def)
  then show ?case
    using Cons.IH[of "forEach_body h c1 st a1 e" "forEach_body h c2 st a2 e"] by simp
qed

lemma stamped_step: "stamped c acc \<Longrightarrow> stamped c (forEach_body h c st acc e)"
  using forEach_body_cases[of h c st acc e]
  by (auto simp: stamped_def nth_append less_Suc_eq)

lemma stamped_loop: "stamped c acc \<Longrightarrow> stamped c (foldl (forEach_body h c st) acc events)"
  by (induction events arbitrary: acc) (simp_all add: stamped_step)

lemma stamped_scan: "stamped c (scanEvents h c st processed events)"
  unfolding scanEvents_def by (rule stamped_loop) (simp add: stamped_def)

subsection \<open>From the loop to \<open>evaluate\<close> and to the effect\<close>

lemma scan_processed_set:
  "set (newProcessed (scanEvents h c st processed events)) =
   set processed \<union> id_ev ` {e \<in> set events. minMagnitude st \<le> magnitude e}"
  by (simp add: scanEvents_def loop_processed_set set_Set_of)

lemma scan_alerts:
  "(\<forall>a \<in> set (newAlerts (scanEvents h c st processed events)).
       event a \<in> set events \<and> minMagnitude st \<le> magnitude (event a) \<and>
       id_ev (event a) \<notin> set processed \<and> body a = renderBody h st (event a)) \<and>
   set (newProcessed (scanEvents h c st processed events)) =
     set processed \<union> id_ev ` event ` set (newAlerts (scanEvents h c st processed events))"
  using loop_alerts_extend[of h c st
      "\<lparr> newProcessed = Set_of processed, newAlerts = [], clockReads = 0 \<rparr>" events]
  by (auto simp: scanEvents_def set_Set_of)

lemma scan_no_alerts:
  "\<forall>e \<in> set events. minMagnitude st \<le> magnitude e \<longrightarrow> id_ev e \<in> set processed \<Longrightarrow>
   newAlerts (scanEvents h c st processed events) = []"
  by (simp add: scanEvents_def loop_no_alerts set_Set_of)

lemma scan_generates:
  "\<forall>x \<in> set events. id_ev x = id_ev e \<longrightarrow> x = e \<Longrightarrow> e \<in> set events \<Longrightarrow>
   minMagnitude st \<le> magnitude e \<Longrightarrow> id_ev e \<notin> set processed \<Longrightarrow>
   \<exists>a \<in> set (newAlerts (scanEvents h c st processed events)).
      event a = e \<and> body a = renderBody h st e"
  unfolding scanEvents_def
  by (rule loop_generates) (simp_all add: set_Set_of)

lemma fst_evaluate:
  "fst (evaluate h c events st processed) =
     (if shortCircuit st events then [] else newAlerts (scanEvents h c st processed events))"
  by (simp add: evaluate_def Let_def)

lemma set_snd_evaluate:
  "set (snd (evaluate h c events st processed)) =
     set processed \<union> id_ev ` event ` set (fst (evaluate h c events st processed))"
  using scan_alerts[of h c st processed events]
  by (simp add: evaluate_def Let_def)

lemma evaluate_alerts:
  "a \<in> set (fst (evaluate h c events st processed)) \<Longrightarrow>
     event a \<in> set events \<and> minMagnitude st \<le> magnitude (event a) \<and>
     id_ev (event a) \<notin> set processed \<and> body a = renderBody h st (event a)"
  using scan_alerts[of h c st processed events]
  by (simp add: fst_evaluate split: if_splits)

lemma evaluate_noop:
  "\<forall>e \<in> set events. minMagnitude st \<le> magnitude e \<longrightarrow> id_ev e \<in> set processed \<Longrightarrow>
   evaluate h c events st processed = ([], processed)"
  by (simp add: evaluate_def Let_def scan_no_alerts)

lemma evaluate_covers:
  assumes "\<not> shortCircuit st events" "e \<in> set events" "minMagnitude st \<le> magnitude e"
  shows "id_ev e \<in> set (snd (evaluate h c events st processed))"
proof (cases "newAlerts (scanEvents h c st processed events) = []")
  case True
  then have "set (newProcessed (scanEvents h c st processed events)) = set processed"
    using scan_alerts[of h c st processed events] by simp
  then have "id_ev e \<in> set processed"
    using assms by (auto simp: scan_processed_set)
  with True assms show ?thesis by (simp add: evaluate_def Let_def)
next
  case False
  with assms show ?thesis by (auto simp: evaluate_def Let_def scan_processed_set)
qed

lemma evaluate_twice:
  "evaluate h c2 events st (snd (evaluate h c1 events st processed)) =
     ([], snd (evaluate h c1 events st processed))"
proof (cases "shortCircuit st events")
  case True
  then show ?thesis by (simp add: evaluate_def)
next
  case False
  then show ?thesis by (intro evaluate_noop) (simp add: evaluate_covers)
qed

text \<open>The effect stores what \<open>evaluate\<close> returns, and caps the log.\<close>

lemma alertEffect_evaluate:
  "alertEffect h c events st s =
     \<lparr> processedEvents = snd (evaluate h c events st (processedEvents s)),
       generatedAlerts =
         (if fst (evaluate h c events st (processedEvents s)) = [] then generatedAlerts s
          else take 50 (fst (evaluate h c events st (processedEvents s)) @ generatedAlerts s)) \<rparr>"
  by (simp add: alertEffect_def evaluate_def Let_def)

lemma alertEffect_log_length:
  "length (generatedAlerts s) \<le> 50 \<Longrightarrow>
   length (generatedAlerts (alertEffect h c events st s)) \<le> 50"
proof -
  assume small: "length (generatedAlerts s) \<le> 50"
  have "length (take 50 (fst (evaluate h c events st (processedEvents s)) @ generatedAlerts s))
      \<le> 50"
    by simp
  with small show ?thesis
    unfolding alertEffect_evaluate by (simp del: length_take take_append)
qed

lemma runs_log_length:
  "length (generatedAlerts s) \<le> 50 \<Longrightarrow> length (generatedAlerts (runs h calls s)) \<le> 50"
proof (induction calls arbitrary: s)
  case Nil
  then show ?case by simp
next
  case (Cons call calls)
  obtain c events st where call: "call = (c, events, st)" by (cases call)
  from Cons.prems have "length (generatedAlerts (alertEffect h c events st s)) \<le> 50"
    by (rule alertEffect_log_length)
  then show ?case unfolding call by (simp add: Cons.IH)
qed

subsection \<open>The rendering\<close>

lemma getSubstitution_no_dollar:
  "CHR ''$'' \<notin> set r \<Longrightarrow> getSubstitution m s p r = r"
  by (induction m s p r rule: getSubstitution.induct) auto

lemma replace_no_dollar:
  "CHR ''$'' \<notin> set v \<Longrightarrow> replace s pat v = replaceFirst s pat v"
  by (simp add: replace_def replaceFirst_def getSubstitution_no_dollar split: option.splits)

text \<open>Where no substituted value contains a dollar sign, the body is the one the
  specification describes.\<close>

lemma renderBody_no_dollar:
  assumes "CHR ''$'' \<notin> set (toFixed1 h (magnitude ev))"
    and "CHR ''$'' \<notin> set (location ev)"
    and "CHR ''$'' \<notin> set (toFixed1 h (depth ev))"
    and "CHR ''$'' \<notin> set (formatDateTime h (updated ev))"
    and "CHR ''$'' \<notin> set (link ev)"
  shows "renderBody h st ev = renderBody_spec h st ev"
  using assms by (simp add: renderBody_def renderBody_spec_def replace_no_dollar)

lemmas run_simps =
  evaluate_def alertEffect_def scanEvents_def forEach_body_def shortCircuit_def
  Set_of_def Set_add_def renderBody_def replace_def toFixed1_def decimal.simps digit_def
  formatDateTime_def Let_def

lemmas alert_examples =
  chileEvent_def chileSettings_def dollarEvent_def quietEvent_def loweredSettings_def
  emptyState_def seenState_def fullState_def defaultSettings_def loweredDefault_def
  twinEvent_def

text \<open>
  The example of the specification: whatever the other fields of the event, the clock
  and the host are, the event \<open>e1\<close> of magnitude 7.2 near Chile gives one alert with body
  \<open>M7.2 near Chile\<close>, and \<open>e1\<close> is processed.
\<close>

lemma chile_example:
  "evaluate h c [ev\<lparr>id_ev := ''e1'', magnitude := 72 / 10, location := ''Chile''\<rparr>]
      chileSettings [] =
     ([\<lparr> id_al = ''e1-'' @ c 0, timestamp = c 1,
         event = ev\<lparr>id_ev := ''e1'', magnitude := 72 / 10, location := ''Chile''\<rparr>,
         body = ''M7.2 near Chile'' \<rparr>], [''e1''])"
  by (simp add: run_simps chileSettings_def)


subsection \<open>The claims about the alert effect\<close>

text \<open>
  Claim C1. The evaluation is idempotent per event id. If every event that meets the
  magnitude threshold has its id in the processed set, a run generates no alert and leaves
  the processed ids (and the persisted state) unchanged. This is the situation after a
  run: a second run on the same events and settings, whatever the clock, generates
  nothing and changes nothing.
\<close>

theorem evaluate_idempotent:
  "((\<forall>e \<in> set events. minMagnitude st \<le> magnitude e \<longrightarrow> id_ev e \<in> set (processedEvents s)) \<longrightarrow>
      evaluate h c events st (processedEvents s) = ([], processedEvents s) \<and>
      alertEffect h c events st s = s) \<and>
   evaluate h c2 events st (snd (evaluate h c1 events st processed)) =
     ([], snd (evaluate h c1 events st processed)) \<and>
   alertEffect h c2 events st (alertEffect h c1 events st s) = alertEffect h c1 events st s"
  by (simp add: evaluate_noop evaluate_twice alertEffect_evaluate)

theorem evaluate_idempotent_witness:
  "minMagnitude chileSettings \<le> magnitude chileEvent \<and>
   id_ev chileEvent \<in> set (processedEvents seenState) \<and>
   evaluate exampleHost clockB [chileEvent] chileSettings [''e1''] = ([], [''e1'']) \<and>
   alertEffect exampleHost clockB [chileEvent] chileSettings seenState = seenState \<and>
   snd (evaluate exampleHost clockA [chileEvent] chileSettings []) = [''e1''] \<and>
   evaluate exampleHost clockB [chileEvent] chileSettings
     (snd (evaluate exampleHost clockA [chileEvent] chileSettings [])) = ([], [''e1''])"
proof -
  have hyp: "\<forall>e \<in> set [chileEvent].
      minMagnitude chileSettings \<le> magnitude e \<longrightarrow> id_ev e \<in> set (processedEvents seenState)"
    by (simp add: alert_examples)
  have seen: "processedEvents seenState = [''e1'']"
    by (simp add: alert_examples)
  have first: "snd (evaluate exampleHost clockA [chileEvent] chileSettings []) = [''e1'']"
    by (simp add: run_simps alert_examples)
  from evaluate_idempotent[of "[chileEvent]" chileSettings seenState exampleHost clockB
      clockB clockA "[]"] hyp
  have "evaluate exampleHost clockB [chileEvent] chileSettings (processedEvents seenState) =
      ([], processedEvents seenState)"
    and "alertEffect exampleHost clockB [chileEvent] chileSettings seenState = seenState"
    and "evaluate exampleHost clockB [chileEvent] chileSettings
      (snd (evaluate exampleHost clockA [chileEvent] chileSettings [])) =
      ([], snd (evaluate exampleHost clockA [chileEvent] chileSettings []))"
    by blast+
  with seen first show ?thesis
    by (simp add: alert_examples)
qed

text \<open>
  Claim C3 as stated: an event below the threshold gets no alert and its id is not added
  to the processed set, and once the threshold is lowered the next run generates an alert
  for it. It fails in three situations.
  \<^item> With the settings a new installation starts with there is no recipient, and the
    run returns at once: no alert for \<open>e2\<close> after the threshold is lowered to 6.
  \<^item> The id \<open>e2\<close> is already among the processed ids: the event is skipped, at any
    threshold.
  \<^item> Another event of the list, above the threshold, carries the same id \<open>e1\<close>: the id
    is added in the first run, and the event below the threshold is skipped after the
    threshold is lowered.
\<close>

theorem below_threshold_claim_fails:
  "(magnitude quietEvent < minMagnitude defaultSettings \<and>
    minMagnitude loweredDefault \<le> magnitude quietEvent \<and>
    fst (evaluate exampleHost clockB [quietEvent] loweredDefault
      (snd (evaluate exampleHost clockA [quietEvent] defaultSettings []))) = []) \<and>
   (magnitude quietEvent < minMagnitude chileSettings \<and>
    minMagnitude loweredSettings \<le> magnitude quietEvent \<and>
    fst (evaluate exampleHost clockB [quietEvent] loweredSettings
      (snd (evaluate exampleHost clockA [quietEvent] chileSettings [''e2'']))) = []) \<and>
   (magnitude twinEvent < minMagnitude chileSettings \<and>
    minMagnitude loweredSettings \<le> magnitude twinEvent \<and>
    id_ev twinEvent \<in>
      set (snd (evaluate exampleHost clockA [chileEvent, twinEvent] chileSettings [])) \<and>
    fst (evaluate exampleHost clockB [chileEvent, twinEvent] loweredSettings
      (snd (evaluate exampleHost clockA [chileEvent, twinEvent] chileSettings []))) = [])"
  by (simp add: run_simps alert_examples)

text \<open>
  Claim C3, amended. Let an event of the list be below the threshold and not yet
  processed, and let no other event of the list carry its id (ids are unique per source
  record). Then the run generates no alert for it and its id is not among the processed
  ids afterwards. If the threshold is then lowered to the event's magnitude or below, with
  notifications on and a recipient present, the next run on the same events generates an
  alert for that very event, rendered with the new settings, and its id is processed.
\<close>

theorem below_threshold_stays_eligible:
  assumes "\<forall>x \<in> set events. id_ev x = id_ev e \<longrightarrow> x = e" and "e \<in> set events"
    and "magnitude e < minMagnitude st" and "id_ev e \<notin> set processed"
  shows "(\<forall>a \<in> set (fst (evaluate h c events st processed)).
            event a \<noteq> e \<and> id_ev (event a) \<noteq> id_ev e) \<and>
         id_ev e \<notin> set (snd (evaluate h c events st processed)) \<and>
         (notificationsEnabled st' \<and> recipients st' \<noteq> [] \<and> minMagnitude st' \<le> magnitude e \<longrightarrow>
            (\<exists>a \<in> set (fst (evaluate h c' events st' (snd (evaluate h c events st processed)))).
               event a = e \<and> body a = renderBody h st' e) \<and>
            id_ev e \<in> set (snd (evaluate h c' events st' (snd (evaluate h c events st processed)))))"
proof -
  have no_alert: "event a \<noteq> e \<and> id_ev (event a) \<noteq> id_ev e"
    if "a \<in> set (fst (evaluate h c events st processed))" for a
  proof -
    from that have in_ev: "event a \<in> set events"
      and big: "minMagnitude st \<le> magnitude (event a)"
      using evaluate_alerts by blast+
    from big assms(3) have ne: "event a \<noteq> e" by auto
    have "id_ev (event a) \<noteq> id_ev e"
    proof
      assume "id_ev (event a) = id_ev e"
      with assms(1) in_ev have "event a = e" by simp
      with ne show False by simp
    qed
    with ne show ?thesis by simp
  qed
  have not_added: "id_ev e \<notin> set (snd (evaluate h c events st processed))"
  proof
    assume "id_ev e \<in> set (snd (evaluate h c events st processed))"
    with assms(4) obtain a where "a \<in> set (fst (evaluate h c events st processed))"
      and "id_ev (event a) = id_ev e"
      by (auto simp: set_snd_evaluate)
    with no_alert[of a] show False by simp
  qed
  have again:
    "(\<exists>a \<in> set (fst (evaluate h c' events st' (snd (evaluate h c events st processed)))).
         event a = e \<and> body a = renderBody h st' e) \<and>
     id_ev e \<in> set (snd (evaluate h c' events st' (snd (evaluate h c events st processed))))"
    if on: "notificationsEnabled st'" "recipients st' \<noteq> []"
      and low: "minMagnitude st' \<le> magnitude e"
  proof -
    from on assms(2) have ns: "\<not> shortCircuit st' events"
      by (auto simp: shortCircuit_def)
    then have "fst (evaluate h c' events st' (snd (evaluate h c events st processed))) =
        newAlerts (scanEvents h c' st' (snd (evaluate h c events st processed)) events)"
      by (simp add: fst_evaluate)
    moreover have "\<exists>a \<in> set (newAlerts
          (scanEvents h c' st' (snd (evaluate h c events st processed)) events)).
        event a = e \<and> body a = renderBody h st' e"
      using assms(1,2) low not_added by (rule scan_generates)
    ultimately show ?thesis
      using evaluate_covers[OF ns assms(2) low] by simp
  qed
  from no_alert not_added again show ?thesis by blast
qed

text \<open>The event \<open>e2\<close> of magnitude 6.6: nothing at threshold 7, an alert at threshold 6.\<close>

theorem below_threshold_stays_eligible_witness:
  "id_ev chileEvent \<noteq> id_ev quietEvent \<and>
   magnitude quietEvent < minMagnitude chileSettings \<and>
   minMagnitude loweredSettings \<le> magnitude quietEvent \<and>
   ''e2'' \<notin> set (snd (evaluate exampleHost clockA [chileEvent, quietEvent] chileSettings [])) \<and>
   ''e2'' \<in> set (snd (evaluate exampleHost clockB [chileEvent, quietEvent] loweredSettings
       (snd (evaluate exampleHost clockA [chileEvent, quietEvent] chileSettings []))))"
proof -
  have ne: "id_ev chileEvent \<noteq> id_ev quietEvent"
    by (simp add: alert_examples)
  then have d: "\<forall>x \<in> set [chileEvent, quietEvent]. id_ev x = id_ev quietEvent \<longrightarrow> x = quietEvent"
    by simp
  have m: "quietEvent \<in> set [chileEvent, quietEvent]"
    by simp
  have below: "magnitude quietEvent < minMagnitude chileSettings"
    by (simp add: alert_examples)
  have fresh: "id_ev quietEvent \<notin> set []"
    by simp
  have lowered: "notificationsEnabled loweredSettings \<and> recipients loweredSettings \<noteq> [] \<and>
      minMagnitude loweredSettings \<le> magnitude quietEvent"
    by (simp add: alert_examples)
  from below_threshold_stays_eligible[OF d m below fresh,
      of exampleHost clockA loweredSettings clockB] lowered
  have "id_ev quietEvent \<notin>
      set (snd (evaluate exampleHost clockA [chileEvent, quietEvent] chileSettings []))"
    and "id_ev quietEvent \<in>
      set (snd (evaluate exampleHost clockB [chileEvent, quietEvent] loweredSettings
        (snd (evaluate exampleHost clockA [chileEvent, quietEvent] chileSettings []))))"
    by blast+
  moreover have "id_ev quietEvent = ''e2''"
    by (simp add: alert_examples)
  ultimately show ?thesis
    using ne below lowered by simp
qed

text \<open>
  Claim C4. Starting from a log of at most 50 alerts, the log holds at most 50 alerts
  after any sequence of runs, and each run leaves the new alerts in front of the old log,
  cut to the first 50 entries.
\<close>

theorem alert_log_capped:
  "length (generatedAlerts s) \<le> 50 \<Longrightarrow>
     length (generatedAlerts (runs h calls s)) \<le> 50 \<and>
     generatedAlerts (alertEffect h c events st s) =
       take 50 (fst (evaluate h c events st (processedEvents s)) @ generatedAlerts s)"
  by (simp add: runs_log_length alertEffect_evaluate)

text \<open>A full log of 50 alerts stays at 50 when a run adds an alert in front.\<close>

theorem alert_log_capped_witness:
  "length (generatedAlerts fullState) = 50 \<and>
   length (generatedAlerts
     (runs exampleHost [(clockA, [chileEvent], chileSettings)] fullState)) \<le> 50 \<and>
   map body (fst (evaluate exampleHost clockA [chileEvent] chileSettings
     (processedEvents fullState))) = [''M7.2 near Chile''] \<and>
   generatedAlerts (alertEffect exampleHost clockA [chileEvent] chileSettings fullState) =
     take 50 (fst (evaluate exampleHost clockA [chileEvent] chileSettings
       (processedEvents fullState)) @ replicate 50 oldAlert)"
proof -
  have full: "length (generatedAlerts fullState) = 50"
    by (simp add: alert_examples)
  then have small: "length (generatedAlerts fullState) \<le> 50"
    by simp
  have log: "generatedAlerts fullState = replicate 50 oldAlert"
    by (simp add: alert_examples)
  have new: "map body (fst (evaluate exampleHost clockA [chileEvent] chileSettings
     (processedEvents fullState))) = [''M7.2 near Chile'']"
    by (simp add: run_simps alert_examples)
  from alert_log_capped[OF small, of exampleHost
      "[(clockA, [chileEvent], chileSettings)]" clockA "[chileEvent]" chileSettings]
  show ?thesis using full new unfolding log by simp
qed

text \<open>
  Claim C7, at an input where the code departs from it. With the settings of the
  specification's example and an event whose place name is \<open>$&\<close>, the body that the effect
  generates still contains the placeholder \<open>{location}\<close>: \<open>replace\<close> reads \<open>$&\<close> in the
  replacement as ``the matched text''. Substituting the location string itself, as the
  claim says, gives \<open>M7.2 near $&\<close>.
\<close>

theorem alert_body_dollar_pattern:
  "map body (fst (evaluate exampleHost clockA [dollarEvent] chileSettings [])) =
     [''M7.2 near {location}''] \<and>
   location dollarEvent = ''$&'' \<and>
   renderBody_spec exampleHost chileSettings dollarEvent = ''M7.2 near $&''"
  by (simp add: run_simps alert_examples renderBody_spec_def replaceFirst_def)

text \<open>
  Claim C9 as stated: two runs on the same events, settings and processed ids give
  identical outputs, ids and time stamps of the alerts included. It fails: the id and the
  time stamp of an alert are read from the clock, and two runs one millisecond apart
  differ.
\<close>

theorem evaluate_depends_on_clock:
  "evaluate exampleHost clockA [chileEvent] chileSettings [] \<noteq>
   evaluate exampleHost clockB [chileEvent] chileSettings []"
  by (simp add: run_simps alert_examples clockA_def clockB_def)

text \<open>
  Claim C9, amended. Two runs on the same events, settings and processed ids, under any
  two clocks, agree on the processed ids, on the events of the generated alerts in their
  order, and on the bodies. The id of the \<open>i\<close>-th alert is the event id, a hyphen and
  the clock reading number \<open>2 i\<close> of the run; its time stamp is the reading number
  \<open>2 i + 1\<close>.
\<close>

theorem evaluate_deterministic_up_to_clock:
  "snd (evaluate h c1 events st processed) = snd (evaluate h c2 events st processed) \<and>
   map event (fst (evaluate h c1 events st processed)) =
     map event (fst (evaluate h c2 events st processed)) \<and>
   map body (fst (evaluate h c1 events st processed)) =
     map body (fst (evaluate h c2 events st processed)) \<and>
   (\<forall>i < length (fst (evaluate h c1 events st processed)).
      id_al (fst (evaluate h c1 events st processed) ! i) =
        id_ev (event (fst (evaluate h c1 events st processed) ! i)) @ ''-'' @ c1 (2 * i) \<and>
      timestamp (fst (evaluate h c1 events st processed) ! i) = c1 (2 * i + 1))"
proof -
  let ?init = "\<lparr> newProcessed = Set_of processed, newAlerts = [], clockReads = 0 \<rparr>"
  have indep:
    "newProcessed (scanEvents h c1 st processed events) =
       newProcessed (scanEvents h c2 st processed events)"
    "map event (newAlerts (scanEvents h c1 st processed events)) =
       map event (newAlerts (scanEvents h c2 st processed events))"
    "map body (newAlerts (scanEvents h c1 st processed events)) =
       map body (newAlerts (scanEvents h c2 st processed events))"
    using loop_clock_independent[of ?init ?init h c1 st events c2]
    by (simp_all add: scanEvents_def)
  from indep(2) have "length (newAlerts (scanEvents h c1 st processed events)) =
      length (newAlerts (scanEvents h c2 st processed events))"
    by (rule map_eq_imp_length_eq)
  then have emp: "(newAlerts (scanEvents h c1 st processed events) = []) =
      (newAlerts (scanEvents h c2 st processed events) = [])"
    by (simp only: length_0_conv[symmetric])
  have part1: "snd (evaluate h c1 events st processed) = snd (evaluate h c2 events st processed)"
    using indep(1) emp by (simp add: evaluate_def Let_def)
  have part2: "map event (fst (evaluate h c1 events st processed)) =
     map event (fst (evaluate h c2 events st processed))"
    using indep(2) by (simp add: fst_evaluate)
  have part3: "map body (fst (evaluate h c1 events st processed)) =
     map body (fst (evaluate h c2 events st processed))"
    using indep(3) by (simp add: fst_evaluate)
  have part4: "\<forall>i < length (fst (evaluate h c1 events st processed)).
      id_al (fst (evaluate h c1 events st processed) ! i) =
        id_ev (event (fst (evaluate h c1 events st processed) ! i)) @ ''-'' @ c1 (2 * i) \<and>
      timestamp (fst (evaluate h c1 events st processed) ! i) = c1 (2 * i + 1)"
    using stamped_scan[of c1 h st processed events]
    by (simp add: fst_evaluate stamped_def)
  from part1 part2 part3 part4 show ?thesis by blast
qed

theorem evaluate_deterministic_up_to_clock_witness:
  "length (fst (evaluate exampleHost clockA [chileEvent] chileSettings [])) = 1 \<and>
   snd (evaluate exampleHost clockA [chileEvent] chileSettings []) =
     snd (evaluate exampleHost clockB [chileEvent] chileSettings []) \<and>
   map body (fst (evaluate exampleHost clockA [chileEvent] chileSettings [])) =
     map body (fst (evaluate exampleHost clockB [chileEvent] chileSettings [])) \<and>
   map id_al (fst (evaluate exampleHost clockA [chileEvent] chileSettings [])) =
     [''e1-2026-01-01T00:00:00.000Z'']"
proof -
  let ?new = "fst (evaluate exampleHost clockA [chileEvent] chileSettings [])"
  have len: "length ?new = 1"
    by (simp add: run_simps alert_examples)
  have ev: "map event ?new = [chileEvent]"
    by (simp add: run_simps alert_examples)
  from evaluate_deterministic_up_to_clock[of exampleHost clockA "[chileEvent]" chileSettings
      "[]" clockB] len
  have same: "snd (evaluate exampleHost clockA [chileEvent] chileSettings []) =
      snd (evaluate exampleHost clockB [chileEvent] chileSettings [])"
    and bodies: "map body ?new =
      map body (fst (evaluate exampleHost clockB [chileEvent] chileSettings []))"
    and ident: "id_al (?new ! 0) = id_ev (event (?new ! 0)) @ ''-'' @ clockA (2 * 0)"
    by simp_all
  from len obtain a where a: "?new = [a]"
    by (cases ?new) simp_all
  with ev ident have "id_al a = ''e1-2026-01-01T00:00:00.000Z''"
    by (simp add: chileEvent_def clockA_def)
  with a len same bodies show ?thesis by simp
qed

text \<open>
  Claim C10. The processed set only grows: the ids stored before a run are stored
  after it, the ids added are exactly those of the events for which the run generated an
  alert, and a run that generates no alert leaves the persisted state, processed ids and
  alert log alike, as it was.
\<close>

theorem processed_ids_monotone:
  "set (processedEvents s) \<subseteq> set (processedEvents (alertEffect h c events st s)) \<and>
   set (processedEvents (alertEffect h c events st s)) =
     set (processedEvents s) \<union>
       id_ev ` event ` set (fst (evaluate h c events st (processedEvents s))) \<and>
   (fst (evaluate h c events st (processedEvents s)) = [] \<longrightarrow> alertEffect h c events st s = s)"
proof -
  have "fst (evaluate h c events st (processedEvents s)) = [] \<Longrightarrow>
        snd (evaluate h c events st (processedEvents s)) = processedEvents s"
    by (simp add: evaluate_def Let_def split: if_splits)
  then show ?thesis
    by (auto simp: alertEffect_evaluate set_snd_evaluate)
qed

text \<open>An event below the threshold: no alert, and the full state is left as it was.\<close>

theorem processed_ids_monotone_witness:
  "fst (evaluate exampleHost clockA [quietEvent] chileSettings (processedEvents fullState)) = [] \<and>
   alertEffect exampleHost clockA [quietEvent] chileSettings fullState = fullState \<and>
   set (processedEvents fullState) \<subseteq>
     set (processedEvents (alertEffect exampleHost clockA [chileEvent] chileSettings fullState))"
proof -
  have none: "fst (evaluate exampleHost clockA [quietEvent] chileSettings
      (processedEvents fullState)) = []"
    by (simp add: run_simps alert_examples)
  from processed_ids_monotone[of fullState exampleHost clockA "[quietEvent]" chileSettings] none
  have "alertEffect exampleHost clockA [quietEvent] chileSettings fullState = fullState"
    by blast
  with none processed_ids_monotone[of fullState exampleHost clockA "[chileEvent]" chileSettings]
  show ?thesis by blast
qed


end
